theory Spec2Isabelle
  imports Complex_Main
begin

section \<open>The torus knot mesh generator (scripts/generate-torus-knot.py)\<close>

text \<open>
  The script has one function, \<^verbatim>\<open>generate_torus_knot_obj\<close>, with four nested helpers
  (\<^verbatim>\<open>calculate_position\<close>, \<^verbatim>\<open>calculate_tangent\<close>, \<^verbatim>\<open>cross_product\<close>, \<^verbatim>\<open>normalize\<close>),
  two loops that fill the lists \<^verbatim>\<open>vertices\<close>, \<^verbatim>\<open>normals\<close> and \<^verbatim>\<open>faces\<close>, and one
  block that writes the OBJ file.

  Numbers: \<^verbatim>\<open>p\<close>, \<^verbatim>\<open>q\<close>, \<^verbatim>\<open>path_segments\<close> and \<^verbatim>\<open>tube_segments\<close> are Python integers
  (\<open>int\<close>); Python floats are idealised as \<open>real\<close>, so \<^verbatim>\<open>math.sin\<close>, \<^verbatim>\<open>math.cos\<close>,
  \<^verbatim>\<open>math.sqrt\<close> and \<^verbatim>\<open>math.pi\<close> are the exact functions and constant, and the literal
  \<^verbatim>\<open>0.9\<close> is the rational 9/10. Rounding, overflow and NaN are outside this model.

  Errors: on reals the only exception the computation can raise is the division by zero
  of Python's \<^verbatim>\<open>/\<close>. Python also raises \<^verbatim>\<open>OverflowError\<close> where an integer is too
  large to become a float (\<^verbatim>\<open>p * t\<close>, \<^verbatim>\<open>q * t\<close>) and where a float power overflows
  (\<^verbatim>\<open>**2\<close>); the reals have no such failure, so the program can fail where the model
  returns, and no property below gives the exact set of failing configurations.
  Opening the output file and writing to it can raise \<^verbatim>\<open>OSError\<close>.
\<close>

datatype error = ZeroDivisionError | OSError

type_synonym vec3 = "real \<times> real \<times> real"

type_synonym face = "int \<times> int \<times> int \<times> int"

record config =
  p :: int
  q :: int
  path_segments :: int
  tube_segments :: int
  torus_radius :: real
  tube_radius :: real
  output_file :: string

text \<open>Python's \<^verbatim>\<open>a / b\<close>: raises on a zero divisor.\<close>

definition truediv :: "real \<Rightarrow> real \<Rightarrow> error + real" where
  "truediv a b = (if b = 0 then Inl ZeroDivisionError else Inr (a / b))"

text \<open>Sequencing of two steps, the first of which may raise.\<close>

fun bindE :: "error + 'a \<Rightarrow> ('a \<Rightarrow> error + 'b) \<Rightarrow> error + 'b" where
  "bindE (Inl e) f = Inl e"
| "bindE (Inr x) f = f x"

subsection \<open>The nested helpers\<close>

definition calculate_position :: "config \<Rightarrow> real \<Rightarrow> vec3" where
  "calculate_position c t =
     (let pt = of_int (p c) * t;
          qt = of_int (q c) * t;
          cos_pt = cos pt;
          sin_pt = sin pt;
          cos_qt = cos qt;
          sin_qt = sin qt;
          R = torus_radius c;
          r = tube_radius c * 2;
          x = cos_pt * (R + r * cos_qt);
          y = sin_pt * (R + r * cos_qt);
          z = r * sin_qt
      in (x, y, z))"

definition calculate_tangent :: "config \<Rightarrow> real \<Rightarrow> error + vec3" where
  "calculate_tangent c t =
     (let pt = of_int (p c) * t;
          qt = of_int (q c) * t;
          dx_dt = - of_int (p c) * sin pt * (torus_radius c + tube_radius c * 2 * cos qt) -
                  of_int (q c) * tube_radius c * 2 * cos pt * sin qt;
          dy_dt = of_int (p c) * cos pt * (torus_radius c + tube_radius c * 2 * cos qt) -
                  of_int (q c) * tube_radius c * 2 * sin pt * sin qt;
          dz_dt = of_int (q c) * tube_radius c * 2 * cos qt;
          length = sqrt (dx_dt ^ 2 + dy_dt ^ 2 + dz_dt ^ 2)
      in if length > 0
         then bindE (truediv dx_dt length) (\<lambda>x.
              bindE (truediv dy_dt length) (\<lambda>y.
              bindE (truediv dz_dt length) (\<lambda>z. Inr (x, y, z))))
         else Inr (1, 0, 0))"

fun cross_product :: "vec3 \<Rightarrow> vec3 \<Rightarrow> vec3" where
  "cross_product (a0, a1, a2) (b0, b1, b2) =
     (a1 * b2 - a2 * b1,
      a2 * b0 - a0 * b2,
      a0 * b1 - a1 * b0)"

fun normalize :: "vec3 \<Rightarrow> error + vec3" where
  "normalize (v0, v1, v2) =
     (let length = sqrt (v0 ^ 2 + v1 ^ 2 + v2 ^ 2)
      in if length > 0
         then bindE (truediv v0 length) (\<lambda>x.
              bindE (truediv v1 length) (\<lambda>y.
              bindE (truediv v2 length) (\<lambda>z. Inr (x, y, z))))
         else Inr (0, 0, 1))"

subsection \<open>The vertex and normal loops\<close>

text \<open>
  The frame of one path sample (lines 79 to 86): the reference vector \<^verbatim>\<open>up\<close> is chosen
  from the tangent's third component, then two normalised cross products.
\<close>

fun choose_up :: "vec3 \<Rightarrow> vec3" where
  "choose_up (t0, t1, t2) = (if \<bar>t2\<bar> < 9 / 10 then (0, 0, 1) else (0, 1, 0))"

definition make_frame :: "vec3 \<Rightarrow> error + (vec3 \<times> vec3)" where
  "make_frame tangent =
     (let up = choose_up tangent
      in bindE (normalize (cross_product tangent up)) (\<lambda>normal1.
         bindE (normalize (cross_product tangent normal1)) (\<lambda>normal2.
         Inr (normal1, normal2))))"

text \<open>
  One pass of the inner loop body (lines 89 to 105) for profile index \<open>j\<close>: the normal
  and the vertex appended to the two lists.
\<close>

fun tube_point :: "config \<Rightarrow> vec3 \<Rightarrow> vec3 \<Rightarrow> vec3 \<Rightarrow> real \<Rightarrow> vec3 \<times> vec3" where
  "tube_point c (pos0, pos1, pos2) (n10, n11, n12) (n20, n21, n22) v =
     (let cos_v = cos v;
          sin_v = sin v;
          nx = n10 * cos_v + n20 * sin_v;
          ny = n11 * cos_v + n21 * sin_v;
          nz = n12 * cos_v + n22 * sin_v;
          vx = pos0 + tube_radius c * nx;
          vy = pos1 + tube_radius c * ny;
          vz = pos2 + tube_radius c * nz
      in ((vx, vy, vz), (nx, ny, nz)))"

text \<open>
  The inner loop \<^verbatim>\<open>for j in range(tube_segments + 1)\<close> over the remaining indices, with
  the two lists as the state; \<^verbatim>\<open>j / tube_segments\<close> may raise.
\<close>

fun tube_loop ::
  "config \<Rightarrow> vec3 \<Rightarrow> vec3 \<Rightarrow> vec3 \<Rightarrow> int list \<Rightarrow> vec3 list \<times> vec3 list
     \<Rightarrow> error + (vec3 list \<times> vec3 list)" where
  "tube_loop c pos normal1 normal2 [] (vertices, normals) = Inr (vertices, normals)"
| "tube_loop c pos normal1 normal2 (j # js) (vertices, normals) =
     bindE (truediv (of_int j) (of_int (tube_segments c))) (\<lambda>d.
       let v = d * 2 * pi;
           (vtx, nrm) = tube_point c pos normal1 normal2 v
       in tube_loop c pos normal1 normal2 js (vertices @ [vtx], normals @ [nrm]))"

text \<open>The outer loop \<^verbatim>\<open>for i in range(path_segments + 1)\<close> (lines 73 to 105).\<close>

fun path_loop ::
  "config \<Rightarrow> int list \<Rightarrow> vec3 list \<times> vec3 list \<Rightarrow> error + (vec3 list \<times> vec3 list)" where
  "path_loop c [] acc = Inr acc"
| "path_loop c (i # is) acc =
     bindE (truediv (of_int i) (of_int (path_segments c))) (\<lambda>d.
       let u = d * 2 * pi;
           pos = calculate_position c u
       in bindE (calculate_tangent c u) (\<lambda>tangent.
          bindE (make_frame tangent) (\<lambda>(normal1, normal2).
          bindE (tube_loop c pos normal1 normal2 [0 .. tube_segments c] acc) (\<lambda>acc'.
          path_loop c is acc'))))"

definition generate_vertices :: "config \<Rightarrow> error + (vec3 list \<times> vec3 list)" where
  "generate_vertices c = path_loop c [0 .. path_segments c] ([], [])"

subsection \<open>The face loop\<close>

definition quad :: "config \<Rightarrow> int \<Rightarrow> int \<Rightarrow> face" where
  "quad c i j =
     (let v1 = i * (tube_segments c + 1) + j;
          v2 = v1 + 1;
          v3 = v1 + (tube_segments c + 1);
          v4 = v3 + 1
      in (v1 + 1, v2 + 1, v4 + 1, v3 + 1))"

definition generate_faces :: "config \<Rightarrow> face list" where
  "generate_faces c =
     concat (map (\<lambda>i. map (\<lambda>j. quad c i j) [0 .. tube_segments c - 1])
                 [0 .. path_segments c - 1])"

subsection \<open>Writing the OBJ file\<close>

fun str_nat :: "nat \<Rightarrow> string" where
  "str_nat n =
     (if n < 10 then [''0123456789'' ! n]
      else str_nat (n div 10) @ [''0123456789'' ! (n mod 10)])"

definition str_int :: "int \<Rightarrow> string" where
  "str_int i = (if i < 0 then CHR ''-'' # str_nat (nat (- i)) else str_nat (nat i))"

text \<open>
  The format \<^verbatim>\<open>:.6f\<close> of a float is Python's own; it is the parameter \<open>fmt\<close> of the
  writer.
\<close>

definition vertex_line :: "(real \<Rightarrow> string) \<Rightarrow> string \<Rightarrow> vec3 \<Rightarrow> string" where
  "vertex_line fmt tag v =
     (case v of (x, y, z) \<Rightarrow>
        tag @ '' '' @ fmt x @ '' '' @ fmt y @ '' '' @ fmt z @ [CHR 0x0A])"

definition face_line :: "face \<Rightarrow> string" where
  "face_line f =
     (case f of (a, b, c, d) \<Rightarrow>
        ''f '' @ str_int a @ ''//'' @ str_int a @ '' '' @
                 str_int b @ ''//'' @ str_int b @ '' '' @
                 str_int c @ ''//'' @ str_int c @ '' '' @
                 str_int d @ ''//'' @ str_int d @ [CHR 0x0A])"

definition obj_text ::
  "(real \<Rightarrow> string) \<Rightarrow> config \<Rightarrow> vec3 list \<Rightarrow> vec3 list \<Rightarrow> face list \<Rightarrow> string" where
  "obj_text fmt c vertices normals faces =
     ''# Torus Knot ('' @ str_int (p c) @ '','' @ str_int (q c) @ '')'' @ [CHR 0x0A] @
     ''# Generated with correct parametric equations'' @ [CHR 0x0A] @
     ''# Vertices: '' @ str_nat (length vertices) @ '', Faces: '' @ str_nat (length faces) @
       [CHR 0x0A, CHR 0x0A] @
     concat (map (vertex_line fmt ''v'') vertices) @
     [CHR 0x0A] @
     concat (map (vertex_line fmt ''vn'') normals) @
     [CHR 0x0A] @
     concat (map face_line faces)"

text \<open>
  The world the script acts on: the files by path, the fault of each path, if it has
  one, and the lines printed so far. A path may refuse to be opened for writing, or be
  opened (which empties the file) and then fail during the writes, after some number of
  characters of the text have reached the file.
\<close>

datatype io_fault = OpenFails | WriteFails nat

record world =
  files :: "string \<Rightarrow> string option"
  fault :: "string \<Rightarrow> io_fault option"
  stdout :: "string list"

definition unwritable :: "world \<Rightarrow> string \<Rightarrow> bool" where
  "unwritable w path \<longleftrightarrow> fault w path \<noteq> None"

text \<open>
  The whole function: the two loops first, then the \<^verbatim>\<open>with open(...)\<close> block with all
  its writes, then the four printed lines. An exception of the loops leaves before the
  file is opened; one of \<^verbatim>\<open>open\<close> leaves the file as it was; one of a write leaves
  the part of the text that was written.
\<close>

definition generate_torus_knot_obj ::
  "(real \<Rightarrow> string) \<Rightarrow> config \<Rightarrow> world \<Rightarrow> (error + unit) \<times> world" where
  "generate_torus_knot_obj fmt c w =
     (case generate_vertices c of
        Inl e \<Rightarrow> (Inl e, w)
      | Inr (vertices, normals) \<Rightarrow>
          let faces = generate_faces c;
              content = obj_text fmt c vertices normals faces
          in case fault w (output_file c) of
               Some OpenFails \<Rightarrow> (Inl OSError, w)
             | Some (WriteFails n) \<Rightarrow>
                 (Inl OSError, w\<lparr>files := (files w)(output_file c \<mapsto> take n content)\<rparr>)
             | None \<Rightarrow>
                 (Inr (),
                  w\<lparr>files := (files w)(output_file c \<mapsto> content),
                    stdout := stdout w @
                      [''Generated '' @ output_file c,
                       ''  Vertices: '' @ str_nat (length vertices),
                       ''  Normals: '' @ str_nat (length normals),
                       ''  Faces: '' @ str_nat (length faces)]\<rparr>))"

text \<open>The spec's valid configurations.\<close>

definition valid_config :: "config \<Rightarrow> bool" where
  "valid_config c \<longleftrightarrow>
     p c \<ge> 1 \<and> q c \<ge> 1 \<and> path_segments c \<ge> 3 \<and> tube_segments c \<ge> 3"

subsection \<open>Vocabulary of the properties\<close>

text \<open>Euclidean length and inner product of triples.\<close>

definition vlen :: "vec3 \<Rightarrow> real" where
  "vlen v = (case v of (x, y, z) \<Rightarrow> sqrt (x ^ 2 + y ^ 2 + z ^ 2))"

definition dot :: "vec3 \<Rightarrow> vec3 \<Rightarrow> real" where
  "dot a b = (case a of (a0, a1, a2) \<Rightarrow> case b of (b0, b1, b2) \<Rightarrow> a0 * b0 + a1 * b1 + a2 * b2)"

text \<open>
  The two loop parameters (lines 74 and 89), and the ring of vertex and normal pairs that
  the loop body appends for path index \<open>i\<close> when no step raises.
\<close>

definition sample_param :: "config \<Rightarrow> int \<Rightarrow> real" where
  "sample_param c i = of_int i / of_int (path_segments c) * 2 * pi"

definition profile_angle :: "config \<Rightarrow> int \<Rightarrow> real" where
  "profile_angle c j = of_int j / of_int (tube_segments c) * 2 * pi"

definition ring :: "config \<Rightarrow> int \<Rightarrow> (vec3 \<times> vec3) list" where
  "ring c i =
     (let u = sample_param c i;
          pos = calculate_position c u;
          tangent = projr (calculate_tangent c u);
          (normal1, normal2) = projr (make_frame tangent)
      in map (\<lambda>j. tube_point c pos normal1 normal2 (profile_angle c j)) [0 .. tube_segments c])"

text \<open>The configuration of the spec's end-to-end example.\<close>

definition example_config :: config where
  "example_config =
     \<lparr>p = 3, q = 2, path_segments = 4, tube_segments = 4,
      torus_radius = 1, tube_radius = 3 / 10, output_file = ''torus-knot.obj''\<rparr>"

text \<open>
  The derivative that \<^verbatim>\<open>calculate_tangent\<close> computes (lines 46 to 50), before it is
  normalised.
\<close>

definition curve_derivative :: "config \<Rightarrow> real \<Rightarrow> vec3" where
  "curve_derivative c t =
     (let pt = of_int (p c) * t;
          qt = of_int (q c) * t;
          dx_dt = - of_int (p c) * sin pt * (torus_radius c + tube_radius c * 2 * cos qt) -
                  of_int (q c) * tube_radius c * 2 * cos pt * sin qt;
          dy_dt = of_int (p c) * cos pt * (torus_radius c + tube_radius c * 2 * cos qt) -
                  of_int (q c) * tube_radius c * 2 * sin pt * sin qt;
          dz_dt = of_int (q c) * tube_radius c * 2 * cos qt
      in (dx_dt, dy_dt, dz_dt))"

text \<open>A configuration whose curve does not move: both winding numbers are zero.\<close>

definition still_config :: config where
  "still_config = example_config\<lparr>p := 0, q := 0\<rparr>"

text \<open>
  The format \<^verbatim>\<open>:.6f\<close> read on reals: the sign, then the magnitude rounded to six
  decimals, ties to even, printed with all its integer digits and exactly six decimals.
  It is the formatter of the concrete runs below; the properties hold for every formatter.
\<close>

definition round_half_even :: "real \<Rightarrow> int" where
  "round_half_even x =
     (let f = \<lfloor>x\<rfloor>
      in if x - of_int f < 1 / 2 then f
         else if x - of_int f > 1 / 2 then f + 1
         else if even f then f else f + 1)"

definition format_6f :: "real \<Rightarrow> string" where
  "format_6f x =
     (let n = nat (round_half_even (\<bar>x\<bar> * 10 ^ 6))
      in (if x < 0 then ''-'' else '''') @ str_nat (n div 10 ^ 6) @ ''.'' @
         map (\<lambda>k. ''0123456789'' ! ((n div 10 ^ k) mod 10)) [5, 4, 3, 2, 1, 0])"

text \<open>A world with no files, no faulty path and nothing printed.\<close>

definition idle_world :: world where
  "idle_world = \<lparr>files = (\<lambda>path. None), fault = (\<lambda>path. None), stdout = []\<rparr>"

text \<open>A configuration that breaks all four conditions of the spec's valid ones.\<close>

definition degenerate_config :: config where
  "degenerate_config =
     \<lparr>p = 0, q = 0, path_segments = 1, tube_segments = 1,
      torus_radius = 1, tube_radius = 3 / 10, output_file = ''torus-knot.obj''\<rparr>"


section \<open>Properties\<close>

subsection \<open>The helpers never divide by zero\<close>

lemma truediv_nonzero: "b \<noteq> 0 \<Longrightarrow> truediv a b = Inr (a / b)"
  by (simp add: truediv_def)

lemma unit_scaled:
  fixes a b d :: real
  assumes "sqrt (a\<^sup>2 + b\<^sup>2 + d\<^sup>2) > 0"
  shows "(a / sqrt (a\<^sup>2 + b\<^sup>2 + d\<^sup>2))\<^sup>2 + (b / sqrt (a\<^sup>2 + b\<^sup>2 + d\<^sup>2))\<^sup>2 +
         (d / sqrt (a\<^sup>2 + b\<^sup>2 + d\<^sup>2))\<^sup>2 = 1"
proof -
  let ?s = "a\<^sup>2 + b\<^sup>2 + d\<^sup>2"
  have s: "?s > 0" using assms by simp
  have sq: "(sqrt ?s)\<^sup>2 = ?s" using s by simp
  have "(a / sqrt ?s)\<^sup>2 + (b / sqrt ?s)\<^sup>2 + (d / sqrt ?s)\<^sup>2 =
        a\<^sup>2 / ?s + b\<^sup>2 / ?s + d\<^sup>2 / ?s"
    by (simp only: power_divide sq)
  also have "\<dots> = ?s / ?s"
    by (simp only: add_divide_distrib)
  also have "\<dots> = 1" using s by simp
  finally show ?thesis .
qed

lemma normalize_cases:
  "normalize v = Inr (if vlen v > 0 then (fst v / vlen v, fst (snd v) / vlen v, snd (snd v) / vlen v) else (0, 0, 1))"
  by (cases v) (simp add: vlen_def Let_def truediv_def)

lemma normalize_unit: "\<exists>w. normalize v = Inr w \<and> vlen w = 1"
proof (cases v)
  case (fields a b d)
  show ?thesis
  proof (cases "sqrt (a\<^sup>2 + b\<^sup>2 + d\<^sup>2) > 0")
    case True
    then show ?thesis using fields unit_scaled[OF True]
      by (simp add: vlen_def Let_def truediv_def)
  next
    case False
    then show ?thesis using fields by (simp add: vlen_def Let_def)
  qed
qed

lemma calculate_tangent_unit: "\<exists>w. calculate_tangent c t = Inr w \<and> vlen w = 1"
proof -
  define a where "a = - of_int (p c) * sin (of_int (p c) * t) * (torus_radius c + tube_radius c * 2 * cos (of_int (q c) * t)) -
                  of_int (q c) * tube_radius c * 2 * cos (of_int (p c) * t) * sin (of_int (q c) * t)"
  define b where "b = of_int (p c) * cos (of_int (p c) * t) * (torus_radius c + tube_radius c * 2 * cos (of_int (q c) * t)) -
                  of_int (q c) * tube_radius c * 2 * sin (of_int (p c) * t) * sin (of_int (q c) * t)"
  define d where "d = of_int (q c) * tube_radius c * 2 * cos (of_int (q c) * t)"
  have eq: "calculate_tangent c t =
     (if sqrt (a\<^sup>2 + b\<^sup>2 + d\<^sup>2) > 0
         then bindE (truediv a (sqrt (a\<^sup>2 + b\<^sup>2 + d\<^sup>2))) (\<lambda>x.
              bindE (truediv b (sqrt (a\<^sup>2 + b\<^sup>2 + d\<^sup>2))) (\<lambda>y.
              bindE (truediv d (sqrt (a\<^sup>2 + b\<^sup>2 + d\<^sup>2))) (\<lambda>z. Inr (x, y, z))))
         else Inr (1, 0, 0))"
    unfolding calculate_tangent_def Let_def a_def b_def d_def by (rule refl)
  show ?thesis
  proof (cases "sqrt (a\<^sup>2 + b\<^sup>2 + d\<^sup>2) > 0")
    case True
    then show ?thesis using unit_scaled[OF True]
      by (simp add: eq vlen_def truediv_def)
  next
    case False
    then show ?thesis by (simp add: eq vlen_def)
  qed
qed


subsection \<open>The loops in closed form\<close>

lemma tube_loop_closed:
  assumes "tube_segments c \<noteq> 0"
  shows "tube_loop c pos n1 n2 js (vs, ns) =
         Inr (vs @ map (\<lambda>j. fst (tube_point c pos n1 n2 (profile_angle c j))) js,
              ns @ map (\<lambda>j. snd (tube_point c pos n1 n2 (profile_angle c j))) js)"
  using assms
proof (induction js arbitrary: vs ns)
  case Nil
  then show ?case by simp
next
  case (Cons j js)
  then show ?case
    by (simp add: truediv_def profile_angle_def Let_def split: prod.splits)
qed

lemma make_frame_total: "\<exists>n1 n2. make_frame tg = Inr (n1, n2)"
proof -
  obtain n1 where n1: "normalize (cross_product tg (choose_up tg)) = Inr n1"
    using normalize_unit by blast
  obtain n2 where n2: "normalize (cross_product tg n1) = Inr n2"
    using normalize_unit by blast
  have "make_frame tg = Inr (n1, n2)"
    by (simp add: make_frame_def Let_def n1 n2)
  then show ?thesis by blast
qed

lemma path_step:
  assumes "path_segments c \<noteq> 0" "tube_segments c \<noteq> 0"
  shows "path_loop c (i # is) (vs, ns) =
         path_loop c is (vs @ map fst (ring c i), ns @ map snd (ring c i))"
proof -
  obtain tg where tg: "calculate_tangent c (sample_param c i) = Inr tg"
    using calculate_tangent_unit by blast
  obtain n1 n2 where fr: "make_frame tg = Inr (n1, n2)"
    using make_frame_total by blast
  have td: "truediv (of_int i) (of_int (path_segments c)) =
            Inr (of_int i / of_int (path_segments c))"
    using assms(1) by (simp add: truediv_def)
  have r: "ring c i =
           map (\<lambda>j. tube_point c (calculate_position c (sample_param c i)) n1 n2
                       (profile_angle c j)) [0 .. tube_segments c]"
    by (simp add: ring_def Let_def tg fr)
  have "path_loop c (i # is) (vs, ns) =
        bindE (tube_loop c (calculate_position c (sample_param c i)) n1 n2
                 [0 .. tube_segments c] (vs, ns)) (\<lambda>acc'. path_loop c is acc')"
    by (simp only: path_loop.simps td bindE.simps Let_def sample_param_def[symmetric]
        tg fr prod.case)
  also have "\<dots> = path_loop c is (vs @ map fst (ring c i), ns @ map snd (ring c i))"
    by (simp add: tube_loop_closed[OF assms(2)] r comp_def)
  finally show ?thesis .
qed

lemma path_loop_closed:
  assumes "path_segments c \<noteq> 0" "tube_segments c \<noteq> 0"
  shows "path_loop c is (vs, ns) =
         Inr (vs @ concat (map (\<lambda>i. map fst (ring c i)) is),
              ns @ concat (map (\<lambda>i. map snd (ring c i)) is))"
proof (induction "is" arbitrary: vs ns)
  case Nil
  then show ?case by simp
next
  case (Cons i "is")
  show ?case by (simp add: path_step[OF assms] Cons.IH del: path_loop.simps)
qed

lemma upto_zero_zero: "[0 .. 0::int] = [0]"
  by (simp add: upto_rec1)

subsection \<open>Sizes and indices of the mesh\<close>

lemma nth_concat_rows:
  assumes "\<forall>x\<in>set xs. length (f x) = m" "i < length xs" "j < m"
  shows "concat (map f xs) ! (i * m + j) = f (xs ! i) ! j"
  using assms
proof (induction xs arbitrary: i)
  case Nil
  then show ?case by simp
next
  case (Cons x xs)
  show ?case
  proof (cases i)
    case 0
    then show ?thesis using Cons.prems by (simp add: nth_append)
  next
    case (Suc k)
    have len: "length (f x) = m" using Cons.prems(1) by simp
    have "concat (map f (x # xs)) ! (i * m + j) = concat (map f xs) ! (k * m + j)"
      using Suc len by (simp add: nth_append)
    also have "\<dots> = f (xs ! k) ! j"
      using Cons.IH[of k] Cons.prems Suc by simp
    finally show ?thesis using Suc by simp
  qed
qed

lemma length_concat_rows:
  assumes "\<forall>x\<in>set xs. length (f x) = m"
  shows "length (concat (map f xs)) = length xs * m"
  using assms by (induction xs) simp_all

lemma length_ring: "length (ring c i) = nat (tube_segments c + 1)"
  by (simp add: ring_def Let_def split: prod.splits)

lemma generate_vertices_closed:
  assumes "path_segments c \<noteq> 0" "tube_segments c \<noteq> 0"
  shows "generate_vertices c =
         Inr (concat (map (\<lambda>i. map fst (ring c i)) [0 .. path_segments c]),
              concat (map (\<lambda>i. map snd (ring c i)) [0 .. path_segments c]))"
  by (simp add: generate_vertices_def path_loop_closed[OF assms])

lemma length_generate_faces:
  "length (generate_faces c) = nat (path_segments c) * nat (tube_segments c)"
proof -
  have "length (generate_faces c) = length [0 .. path_segments c - 1] * nat (tube_segments c)"
    unfolding generate_faces_def by (rule length_concat_rows) simp
  then show ?thesis by simp
qed

lemma nth_generate_faces:
  assumes "0 \<le> i" "i < path_segments c" "0 \<le> j" "j < tube_segments c"
  shows "generate_faces c ! (nat i * nat (tube_segments c) + nat j) = quad c i j"
proof -
  have "generate_faces c ! (nat i * nat (tube_segments c) + nat j) =
        map (\<lambda>j. quad c i j) [0 .. tube_segments c - 1] ! nat j"
    unfolding generate_faces_def
    using assms by (subst nth_concat_rows) simp_all
  then show ?thesis using assms by simp
qed

lemma in_generate_faces:
  assumes "f \<in> set (generate_faces c)"
  obtains i j where "0 \<le> i" "i < path_segments c" "0 \<le> j" "j < tube_segments c"
    "f = quad c i j"
  using assms by (auto simp: generate_faces_def)

lemma quad_bounds:
  assumes "0 \<le> i" "i < n" "0 \<le> j" "j < m"
    and "tube_segments c = m"
  shows "case quad c i j of (a, b, d, e) \<Rightarrow>
           1 \<le> a \<and> a < b \<and> b < e \<and> e < d \<and> d \<le> (n + 1) * (m + 1)"
proof -
  have m: "0 < m" using assms by simp
  have "(i + 1) * (m + 1) \<le> n * (m + 1)"
    using assms by (intro mult_right_mono) simp_all
  then have up: "i * (m + 1) + j + (m + 1) + 1 + 1 \<le> (n + 1) * (m + 1)"
    using assms by (simp add: algebra_simps)
  have lo: "0 \<le> i * (m + 1)" using assms m by simp
  show ?thesis
    using up lo assms by (simp add: quad_def Let_def)
qed

lemma valid_mesh_sizes:
  assumes "valid_config c"
  shows "\<exists>vertices normals.
           generate_vertices c = Inr (vertices, normals) \<and>
           int (length vertices) = (path_segments c + 1) * (tube_segments c + 1) \<and>
           length normals = length vertices \<and>
           int (length (generate_faces c)) = path_segments c * tube_segments c"
proof -
  have ps: "path_segments c \<ge> 3" and ts: "tube_segments c \<ge> 3"
    using assms by (simp_all add: valid_config_def)
  have lv: "length (concat (map (\<lambda>i. map fst (ring c i)) [0 .. path_segments c])) =
            length [0 .. path_segments c] * nat (tube_segments c + 1)"
    by (rule length_concat_rows) (simp add: length_ring)
  have ln: "length (concat (map (\<lambda>i. map snd (ring c i)) [0 .. path_segments c])) =
            length [0 .. path_segments c] * nat (tube_segments c + 1)"
    by (rule length_concat_rows) (simp add: length_ring)
  have cnt: "int (length [0 .. path_segments c] * nat (tube_segments c + 1)) =
             (path_segments c + 1) * (tube_segments c + 1)"
    using ps ts by simp
  have fc: "int (length (generate_faces c)) = path_segments c * tube_segments c"
    using ps ts by (simp add: length_generate_faces)
  show ?thesis
    using ps ts generate_vertices_closed[of c] lv ln cnt fc by (simp del: length_upto)
qed


text \<open>
  C2. For every valid configuration the vertex loop returns, with
  \<open>(path_segments + 1) * (tube_segments + 1)\<close> vertices and as many normals, and the
  face loop produces \<open>path_segments * tube_segments\<close> faces.
\<close>

theorem mesh_counts:
  assumes "valid_config c"
  shows "\<exists>vertices normals.
           generate_vertices c = Inr (vertices, normals) \<and>
           int (length vertices) = (path_segments c + 1) * (tube_segments c + 1) \<and>
           length normals = length vertices \<and>
           int (length (generate_faces c)) = path_segments c * tube_segments c"
  using assms by (rule valid_mesh_sizes)

theorem mesh_counts_witness:
  "valid_config example_config \<and>
   (\<exists>vertices normals.
      generate_vertices example_config = Inr (vertices, normals) \<and>
      int (length vertices) = 25 \<and>
      length normals = length vertices \<and>
      int (length (generate_faces example_config)) = 16)"
proof -
  have v: "valid_config example_config"
    by (simp add: valid_config_def example_config_def)
  show ?thesis
    using v mesh_counts[OF v] by (simp add: example_config_def)
qed


text \<open>
  C3. For every valid configuration every index of every face lies between 1 and the
  number of vertices, the four indices of a face are pairwise distinct, and the face of
  \<open>(i, j)\<close>, at position \<open>i * tube_segments + j\<close> of the list, is
  \<open>(v1 + 1, v2 + 1, v4 + 1, v3 + 1)\<close> with \<open>v1 = i * (tube_segments + 1) + j\<close>,
  \<open>v2 = v1 + 1\<close>, \<open>v3 = v1 + (tube_segments + 1)\<close> and \<open>v4 = v3 + 1\<close>.
\<close>

theorem face_indices:
  assumes "valid_config c"
  shows "\<exists>vertices normals.
           generate_vertices c = Inr (vertices, normals) \<and>
           (\<forall>f \<in> set (generate_faces c).
              case f of (a, b, d, e) \<Rightarrow>
                (\<forall>k \<in> {a, b, d, e}. 1 \<le> k \<and> k \<le> int (length vertices)) \<and>
                distinct [a, b, d, e]) \<and>
           (\<forall>i j. 0 \<le> i \<and> i < path_segments c \<and> 0 \<le> j \<and> j < tube_segments c \<longrightarrow>
              generate_faces c ! nat (i * tube_segments c + j) =
                (let v1 = i * (tube_segments c + 1) + j;
                     v2 = v1 + 1;
                     v3 = v1 + (tube_segments c + 1);
                     v4 = v3 + 1
                 in (v1 + 1, v2 + 1, v4 + 1, v3 + 1)))"
proof -
  obtain vertices normals where gv: "generate_vertices c = Inr (vertices, normals)"
    and len: "int (length vertices) = (path_segments c + 1) * (tube_segments c + 1)"
    using valid_mesh_sizes[OF assms] by blast
  have range: "case f of (a, b, d, e) \<Rightarrow>
                (\<forall>k \<in> {a, b, d, e}. 1 \<le> k \<and> k \<le> int (length vertices)) \<and>
                distinct [a, b, d, e]"
    if mem: "f \<in> set (generate_faces c)" for f
  proof -
    obtain i j where ij: "0 \<le> i" "i < path_segments c" "0 \<le> j" "j < tube_segments c"
      and f: "f = quad c i j"
      using in_generate_faces[OF mem] by blast
    show ?thesis
      using quad_bounds[OF ij refl] unfolding f len
      by (auto split: prod.splits)
  qed
  have order: "generate_faces c ! nat (i * tube_segments c + j) =
                (let v1 = i * (tube_segments c + 1) + j;
                     v2 = v1 + 1;
                     v3 = v1 + (tube_segments c + 1);
                     v4 = v3 + 1
                 in (v1 + 1, v2 + 1, v4 + 1, v3 + 1))"
    if "0 \<le> i" "i < path_segments c" "0 \<le> j" "j < tube_segments c" for i j
  proof -
    have "nat (i * tube_segments c + j) = nat i * nat (tube_segments c) + nat j"
      using that by (simp add: nat_add_distrib nat_mult_distrib)
    then show ?thesis
      using nth_generate_faces[OF that] by (simp add: quad_def)
  qed
  show ?thesis using gv range order by blast
qed

theorem face_indices_witness:
  "valid_config example_config \<and>
   (\<exists>vertices normals.
      generate_vertices example_config = Inr (vertices, normals) \<and>
      (\<forall>f \<in> set (generate_faces example_config).
         case f of (a, b, d, e) \<Rightarrow>
           (\<forall>k \<in> {a, b, d, e}. 1 \<le> k \<and> k \<le> int (length vertices)) \<and>
           distinct [a, b, d, e]) \<and>
      generate_faces example_config ! 6 = (8, 9, 14, 13))"
proof -
  have v: "valid_config example_config"
    by (simp add: valid_config_def example_config_def)
  obtain vertices normals where
    gv: "generate_vertices example_config = Inr (vertices, normals)" and
    rg: "\<forall>f \<in> set (generate_faces example_config).
         case f of (a, b, d, e) \<Rightarrow>
           (\<forall>k \<in> {a, b, d, e}. 1 \<le> k \<and> k \<le> int (length vertices)) \<and>
           distinct [a, b, d, e]" and
    ord: "\<forall>i j. 0 \<le> i \<and> i < path_segments example_config \<and>
                0 \<le> j \<and> j < tube_segments example_config \<longrightarrow>
              generate_faces example_config ! nat (i * tube_segments example_config + j) =
                (let v1 = i * (tube_segments example_config + 1) + j;
                     v2 = v1 + 1;
                     v3 = v1 + (tube_segments example_config + 1);
                     v4 = v3 + 1
                 in (v1 + 1, v2 + 1, v4 + 1, v3 + 1))"
    using face_indices[OF v] by blast
  have "generate_faces example_config ! 6 = (8, 9, 14, 13)"
    using ord[rule_format, of 1 2] by (simp add: example_config_def)
  then show ?thesis using v gv rg by blast
qed

subsection \<open>Closure of the rings and of the path\<close>

lemma tube_point_cong:
  assumes "cos v = cos v'" "sin v = sin v'"
  shows "tube_point c pos n1 n2 v = tube_point c pos n1 n2 v'"
  using assms by (cases pos; cases n1; cases n2) simp

lemma profile_angle_first: "profile_angle c 0 = 0"
  by (simp add: profile_angle_def)

lemma profile_angle_last: "tube_segments c \<noteq> 0 \<Longrightarrow> profile_angle c (tube_segments c) = 2 * pi"
  by (simp add: profile_angle_def)

lemma sample_param_first: "sample_param c 0 = 0"
  by (simp add: sample_param_def)

lemma sample_param_last: "path_segments c \<noteq> 0 \<Longrightarrow> sample_param c (path_segments c) = 2 * pi"
  by (simp add: sample_param_def)

lemma cos_int_turn: "cos (of_int n * (2 * pi)) = 1"
  using cos_int_2pin[of n] by (simp add: mult.commute)

lemma sin_int_turn: "sin (of_int n * (2 * pi)) = 0"
  using sin_int_2pin[of n] by (simp add: mult.commute)

lemma calculate_position_turn: "calculate_position c (2 * pi) = calculate_position c 0"
  by (simp add: calculate_position_def Let_def cos_int_turn sin_int_turn)

lemma calculate_tangent_turn: "calculate_tangent c (2 * pi) = calculate_tangent c 0"
  by (simp add: calculate_tangent_def Let_def cos_int_turn sin_int_turn)

lemma ring_nth:
  assumes "0 \<le> j" "j \<le> tube_segments c"
  shows "ring c i ! nat j =
         tube_point c (calculate_position c (sample_param c i))
           (fst (projr (make_frame (projr (calculate_tangent c (sample_param c i))))))
           (snd (projr (make_frame (projr (calculate_tangent c (sample_param c i))))))
           (profile_angle c j)"
  using assms by (simp add: ring_def Let_def split: prod.splits)

lemma ring_closure:
  assumes "0 < tube_segments c"
  shows "ring c i ! 0 = ring c i ! nat (tube_segments c)"
proof -
  have "ring c i ! nat 0 = ring c i ! nat (tube_segments c)"
    using assms
    by (simp only: ring_nth[of 0 c] ring_nth[of "tube_segments c" c] order_refl
        less_imp_le profile_angle_first)
       (simp add: profile_angle_last tube_point_cong)
  then show ?thesis by simp
qed

lemma ring_turn:
  assumes "path_segments c \<noteq> 0"
  shows "ring c (path_segments c) = ring c 0"
  using assms
  by (simp add: ring_def sample_param_first sample_param_last
      calculate_position_turn calculate_tangent_turn)

lemma mesh_nth:
  assumes "0 < path_segments c" "0 < tube_segments c"
    and "0 \<le> i" "i \<le> path_segments c" "0 \<le> j" "j \<le> tube_segments c"
  shows "\<exists>vertices normals.
           generate_vertices c = Inr (vertices, normals) \<and>
           vertices ! nat (i * (tube_segments c + 1) + j) = fst (ring c i ! nat j) \<and>
           normals ! nat (i * (tube_segments c + 1) + j) = snd (ring c i ! nat j)"
proof -
  let ?m = "nat (tube_segments c + 1)"
  have idx: "nat (i * (tube_segments c + 1) + j) = nat i * ?m + nat j"
    using assms by (simp add: nat_add_distrib nat_mult_distrib)
  have il: "nat i < length [0 .. path_segments c]" using assms by simp
  have jl: "nat j < ?m" using assms by simp
  have ith: "[0 .. path_segments c] ! nat i = i" using assms by simp
  have jr: "nat j < length (ring c i)" using jl by (simp add: length_ring)
  have v: "concat (map (\<lambda>i. map fst (ring c i)) [0 .. path_segments c]) ! (nat i * ?m + nat j) =
           fst (ring c i ! nat j)"
    using il jl jr ith
    by (subst nth_concat_rows[where m = ?m]) (simp_all add: length_ring del: length_upto)
  have n: "concat (map (\<lambda>i. map snd (ring c i)) [0 .. path_segments c]) ! (nat i * ?m + nat j) =
           snd (ring c i ! nat j)"
    using il jl jr ith
    by (subst nth_concat_rows[where m = ?m]) (simp_all add: length_ring del: length_upto)
  show ?thesis
    using assms(1,2) generate_vertices_closed[of c] v n idx by simp
qed

text \<open>
  C4. For every valid configuration and every ring index \<open>i\<close> from 0 to
  \<open>path_segments\<close>, the vertex and the normal at profile index 0 of ring \<open>i\<close> equal, in
  exact real arithmetic, the vertex and the normal at profile index \<open>tube_segments\<close> of
  the same ring. The entry of ring \<open>i\<close> and profile index \<open>j\<close> is at position
  \<open>i * (tube_segments + 1) + j\<close> of the lists.
\<close>

theorem ring_closed:
  assumes "valid_config c"
  shows "\<exists>vertices normals.
           generate_vertices c = Inr (vertices, normals) \<and>
           (\<forall>i. 0 \<le> i \<and> i \<le> path_segments c \<longrightarrow>
              vertices ! nat (i * (tube_segments c + 1) + 0) =
                vertices ! nat (i * (tube_segments c + 1) + tube_segments c) \<and>
              normals ! nat (i * (tube_segments c + 1) + 0) =
                normals ! nat (i * (tube_segments c + 1) + tube_segments c))"
proof -
  have ps: "0 < path_segments c" and ts: "0 < tube_segments c"
    using assms by (simp_all add: valid_config_def)
  obtain vertices normals where gv: "generate_vertices c = Inr (vertices, normals)"
    using valid_mesh_sizes[OF assms] by blast
  have "vertices ! nat (i * (tube_segments c + 1) + 0) =
          vertices ! nat (i * (tube_segments c + 1) + tube_segments c) \<and>
        normals ! nat (i * (tube_segments c + 1) + 0) =
          normals ! nat (i * (tube_segments c + 1) + tube_segments c)"
    if i: "0 \<le> i" "i \<le> path_segments c" for i
  proof -
    have first: "vertices ! nat (i * (tube_segments c + 1) + 0) = fst (ring c i ! nat 0) \<and>
                 normals ! nat (i * (tube_segments c + 1) + 0) = snd (ring c i ! nat 0)"
      using mesh_nth[OF ps ts i, of 0] ts gv by simp
    have last: "vertices ! nat (i * (tube_segments c + 1) + tube_segments c) =
                  fst (ring c i ! nat (tube_segments c)) \<and>
                normals ! nat (i * (tube_segments c + 1) + tube_segments c) =
                  snd (ring c i ! nat (tube_segments c))"
      using mesh_nth[OF ps ts i, of "tube_segments c"] ts gv by simp
    show ?thesis
      using first last ring_closure[OF ts, of i] by simp
  qed
  then show ?thesis using gv by blast
qed

theorem ring_closed_witness:
  "valid_config example_config \<and>
   (\<exists>vertices normals.
      generate_vertices example_config = Inr (vertices, normals) \<and>
      vertices ! 10 = vertices ! 14 \<and> normals ! 10 = normals ! 14)"
proof -
  have v: "valid_config example_config"
    by (simp add: valid_config_def example_config_def)
  obtain vertices normals where
    gv: "generate_vertices example_config = Inr (vertices, normals)" and
    cl: "\<forall>i. 0 \<le> i \<and> i \<le> path_segments example_config \<longrightarrow>
              vertices ! nat (i * (tube_segments example_config + 1) + 0) =
                vertices ! nat (i * (tube_segments example_config + 1) +
                                tube_segments example_config) \<and>
              normals ! nat (i * (tube_segments example_config + 1) + 0) =
                normals ! nat (i * (tube_segments example_config + 1) +
                               tube_segments example_config)"
    using ring_closed[OF v] by blast
  have "vertices ! 10 = vertices ! 14 \<and> normals ! 10 = normals ! 14"
    using cl[rule_format, of 2] by (simp add: example_config_def)
  then show ?thesis using v gv by blast
qed


text \<open>
  C5. For every valid configuration, ring 0 and ring \<open>path_segments\<close> coincide: for every
  profile index \<open>j\<close> from 0 to \<open>tube_segments\<close> the vertex and the normal at
  \<open>(0, j)\<close> equal, in exact real arithmetic, those at \<open>(path_segments, j)\<close>.
\<close>

theorem path_closed:
  assumes "valid_config c"
  shows "\<exists>vertices normals.
           generate_vertices c = Inr (vertices, normals) \<and>
           (\<forall>j. 0 \<le> j \<and> j \<le> tube_segments c \<longrightarrow>
              vertices ! nat (0 * (tube_segments c + 1) + j) =
                vertices ! nat (path_segments c * (tube_segments c + 1) + j) \<and>
              normals ! nat (0 * (tube_segments c + 1) + j) =
                normals ! nat (path_segments c * (tube_segments c + 1) + j))"
proof -
  have ps: "0 < path_segments c" and ts: "0 < tube_segments c"
    using assms by (simp_all add: valid_config_def)
  obtain vertices normals where gv: "generate_vertices c = Inr (vertices, normals)"
    using valid_mesh_sizes[OF assms] by blast
  have "vertices ! nat (0 * (tube_segments c + 1) + j) =
          vertices ! nat (path_segments c * (tube_segments c + 1) + j) \<and>
        normals ! nat (0 * (tube_segments c + 1) + j) =
          normals ! nat (path_segments c * (tube_segments c + 1) + j)"
    if j: "0 \<le> j" "j \<le> tube_segments c" for j
  proof -
    have first: "vertices ! nat (0 * (tube_segments c + 1) + j) = fst (ring c 0 ! nat j) \<and>
                 normals ! nat (0 * (tube_segments c + 1) + j) = snd (ring c 0 ! nat j)"
      using mesh_nth[OF ps ts _ _ j, of 0] ps gv by simp
    have last: "vertices ! nat (path_segments c * (tube_segments c + 1) + j) =
                  fst (ring c (path_segments c) ! nat j) \<and>
                normals ! nat (path_segments c * (tube_segments c + 1) + j) =
                  snd (ring c (path_segments c) ! nat j)"
      using mesh_nth[OF ps ts _ _ j, of "path_segments c"] ps gv by simp
    have "ring c (path_segments c) = ring c 0"
      using ps by (simp add: ring_turn)
    then show ?thesis using first last by simp
  qed
  then show ?thesis using gv by blast
qed

theorem path_closed_witness:
  "valid_config example_config \<and>
   (\<exists>vertices normals.
      generate_vertices example_config = Inr (vertices, normals) \<and>
      vertices ! 3 = vertices ! 23 \<and> normals ! 3 = normals ! 23)"
proof -
  have v: "valid_config example_config"
    by (simp add: valid_config_def example_config_def)
  obtain vertices normals where
    gv: "generate_vertices example_config = Inr (vertices, normals)" and
    cl: "\<forall>j. 0 \<le> j \<and> j \<le> tube_segments example_config \<longrightarrow>
              vertices ! nat (0 * (tube_segments example_config + 1) + j) =
                vertices ! nat (path_segments example_config *
                                (tube_segments example_config + 1) + j) \<and>
              normals ! nat (0 * (tube_segments example_config + 1) + j) =
                normals ! nat (path_segments example_config *
                               (tube_segments example_config + 1) + j)"
    using path_closed[OF v] by blast
  have "vertices ! 3 = vertices ! 23 \<and> normals ! 3 = normals ! 23"
    using cl[rule_format, of 3] by (simp add: example_config_def)
  then show ?thesis using v gv by blast
qed

subsection \<open>The frame\<close>

lemma vlen_unit_sq:
  assumes "vlen (a, b, d) = 1"
  shows "a\<^sup>2 + b\<^sup>2 + d\<^sup>2 = 1"
proof -
  have "sqrt (a\<^sup>2 + b\<^sup>2 + d\<^sup>2) = 1" using assms by (simp add: vlen_def)
  then show ?thesis by (simp add: real_sqrt_eq_1_iff)
qed

lemma cross_up_positive:
  assumes "vlen tg = 1"
  shows "vlen (cross_product tg (choose_up tg)) > 0"
proof (cases tg)
  case (fields a b d)
  have u: "a\<^sup>2 + b\<^sup>2 + d\<^sup>2 = 1" using assms fields by (simp add: vlen_unit_sq)
  show ?thesis
  proof (cases "\<bar>d\<bar> < 9 / 10")
    case True
    have "\<bar>d\<bar>\<^sup>2 < (9 / 10)\<^sup>2"
      using True by (intro power_strict_mono) simp_all
    then have "d\<^sup>2 < 1" by (simp add: power2_eq_square)
    then have "0 < b\<^sup>2 + a\<^sup>2" using u by linarith
    then show ?thesis using fields True by (simp add: vlen_def)
  next
    case False
    then have "9 / 10 \<le> \<bar>d\<bar>" by simp
    then have "(9 / 10)\<^sup>2 \<le> \<bar>d\<bar>\<^sup>2"
      by (intro power_mono) simp_all
    then have "0 < d\<^sup>2" by (simp add: power2_eq_square)
    then have "0 < d\<^sup>2 + a\<^sup>2" using zero_le_power2[of a] by linarith
    then show ?thesis using fields False by (simp add: vlen_def)
  qed
qed

lemma normalize_positive:
  assumes "vlen (x, y, z) > 0"
  shows "normalize (x, y, z) = Inr (x / vlen (x, y, z), y / vlen (x, y, z), z / vlen (x, y, z))"
  using assms by (simp add: vlen_def Let_def truediv_def)

lemma dot_cross_first: "dot (cross_product a b) a = 0"
  by (cases a; cases b) (simp add: dot_def algebra_simps)

lemma dot_cross_second: "dot (cross_product a b) b = 0"
  by (cases a; cases b) (simp add: dot_def algebra_simps)

lemma dot_commute: "dot a b = dot b a"
  by (cases a; cases b) (simp add: dot_def algebra_simps)

lemma dot_scaled: "dot (x / l, y / l, z / l) b = dot (x, y, z) b / l"
  by (cases b) (simp add: dot_def add_divide_distrib)

lemma vlen_sq: "(vlen (x, y, z))\<^sup>2 = x\<^sup>2 + y\<^sup>2 + z\<^sup>2"
  by (simp add: vlen_def)

lemma lagrange:
  "(vlen (cross_product a b))\<^sup>2 = (vlen a)\<^sup>2 * (vlen b)\<^sup>2 - (dot a b)\<^sup>2"
proof (cases a; cases b)
  fix a0 a1 a2 b0 b1 b2
  assume ab: "a = (a0, a1, a2)" "b = (b0, b1, b2)"
  have "(vlen (cross_product (a0, a1, a2) (b0, b1, b2)))\<^sup>2 =
        (a1 * b2 - a2 * b1)\<^sup>2 + (a2 * b0 - a0 * b2)\<^sup>2 + (a0 * b1 - a1 * b0)\<^sup>2"
    by (simp only: cross_product.simps vlen_sq)
  also have "\<dots> = (a0\<^sup>2 + a1\<^sup>2 + a2\<^sup>2) * (b0\<^sup>2 + b1\<^sup>2 + b2\<^sup>2) -
                   (a0 * b0 + a1 * b1 + a2 * b2)\<^sup>2"
    by (simp add: power2_eq_square algebra_simps)
  also have "\<dots> = (vlen (a0, a1, a2))\<^sup>2 * (vlen (b0, b1, b2))\<^sup>2 -
                   (dot (a0, a1, a2) (b0, b1, b2))\<^sup>2"
    by (simp only: vlen_sq dot_def prod.case)
  finally show ?thesis using ab by simp
qed

lemma normalize_perp:
  assumes "vlen (cross_product a b) > 0" "normalize (cross_product a b) = Inr n"
  shows "dot n a = 0 \<and> dot n b = 0"
proof (cases "cross_product a b")
  case (fields x y z)
  have n: "n = (x / vlen (x, y, z), y / vlen (x, y, z), z / vlen (x, y, z))"
    using assms normalize_positive[of x y z] fields by simp
  have "dot (x, y, z) a = 0" "dot (x, y, z) b = 0"
    using dot_cross_first[of a b] dot_cross_second[of a b] fields by simp_all
  then show ?thesis by (simp add: n dot_scaled)
qed

lemma frame_orthonormal:
  assumes "vlen tg = 1"
  shows "\<exists>n1 n2. make_frame tg = Inr (n1, n2) \<and>
           normalize (cross_product tg (choose_up tg)) = Inr n1 \<and>
           normalize (cross_product tg n1) = Inr n2 \<and>
           vlen n1 = 1 \<and> vlen n2 = 1 \<and> dot n1 tg = 0 \<and> dot n1 n2 = 0"
proof -
  obtain n1 where n1: "normalize (cross_product tg (choose_up tg)) = Inr n1"
    and l1: "vlen n1 = 1"
    using normalize_unit by blast
  obtain n2 where n2: "normalize (cross_product tg n1) = Inr n2" and l2: "vlen n2 = 1"
    using normalize_unit by blast
  have p1: "dot n1 tg = 0"
    using normalize_perp[OF cross_up_positive[OF assms] n1] by simp
  have "(vlen (cross_product tg n1))\<^sup>2 = 1"
    using lagrange[of tg n1] assms l1 p1 by (simp add: dot_commute[of tg n1])
  then have "vlen (cross_product tg n1) \<noteq> 0" by auto
  moreover have "vlen (cross_product tg n1) \<ge> 0"
    by (cases "cross_product tg n1") (simp add: vlen_def)
  ultimately have pos: "vlen (cross_product tg n1) > 0" by linarith
  have p2: "dot n1 n2 = 0"
    using normalize_perp[OF pos n2] by (simp add: dot_commute[of n1 n2])
  have "make_frame tg = Inr (n1, n2)"
    by (simp add: make_frame_def Let_def n1 n2)
  then show ?thesis using n1 n2 l1 l2 p1 p2 by blast
qed

text \<open>
  C6. At every path sample \<open>i\<close> from 0 to \<open>path_segments\<close> of every valid
  configuration, the tangent computation and the frame construction return, with
  \<open>normal1 = normalize (tangent \<times> up)\<close>, \<open>up = (0, 0, 1)\<close> if \<open>\<bar>tangent.z\<bar> < 0.9\<close> and
  \<open>(0, 1, 0)\<close> otherwise, and \<open>normal2 = normalize (tangent \<times> normal1)\<close>; both normals
  have length 1, \<open>normal1\<close> is orthogonal to the tangent and to \<open>normal2\<close>, each within
  the tolerance 1e-6 (in real arithmetic they hold exactly, see \<open>frame_orthonormal\<close>).
\<close>

theorem frame_within_tolerance:
  assumes "valid_config c" "0 \<le> i" "i \<le> path_segments c"
  shows "\<exists>tangent normal1 normal2.
           calculate_tangent c (sample_param c i) = Inr tangent \<and>
           make_frame tangent = Inr (normal1, normal2) \<and>
           normalize (cross_product tangent
             (if \<bar>snd (snd tangent)\<bar> < 9 / 10 then (0, 0, 1) else (0, 1, 0))) = Inr normal1 \<and>
           normalize (cross_product tangent normal1) = Inr normal2 \<and>
           \<bar>vlen normal1 - 1\<bar> \<le> 1 / 10 ^ 6 \<and>
           \<bar>vlen normal2 - 1\<bar> \<le> 1 / 10 ^ 6 \<and>
           \<bar>dot normal1 tangent\<bar> \<le> 1 / 10 ^ 6 \<and>
           \<bar>dot normal1 normal2\<bar> \<le> 1 / 10 ^ 6"
proof -
  obtain tg where tg: "calculate_tangent c (sample_param c i) = Inr tg" and u: "vlen tg = 1"
    using calculate_tangent_unit by blast
  obtain n1 n2 where fr: "make_frame tg = Inr (n1, n2)"
    and n1: "normalize (cross_product tg (choose_up tg)) = Inr n1"
    and n2: "normalize (cross_product tg n1) = Inr n2"
    and o: "vlen n1 = 1" "vlen n2 = 1" "dot n1 tg = 0" "dot n1 n2 = 0"
    using frame_orthonormal[OF u] by blast
  have up: "choose_up tg = (if \<bar>snd (snd tg)\<bar> < 9 / 10 then (0, 0, 1) else (0, 1, 0))"
    by (cases tg) simp
  show ?thesis
    using tg fr n1 n2 o unfolding up by (intro exI[of _ tg] exI[of _ n1] exI[of _ n2]) simp
qed

theorem frame_within_tolerance_witness:
  "valid_config example_config \<and> (0::int) \<le> 0 \<and> 0 \<le> path_segments example_config \<and>
   (\<exists>tangent normal1 normal2.
           calculate_tangent example_config (sample_param example_config 0) = Inr tangent \<and>
           make_frame tangent = Inr (normal1, normal2) \<and>
           normalize (cross_product tangent
             (if \<bar>snd (snd tangent)\<bar> < 9 / 10 then (0, 0, 1) else (0, 1, 0))) = Inr normal1 \<and>
           normalize (cross_product tangent normal1) = Inr normal2 \<and>
           \<bar>vlen normal1 - 1\<bar> \<le> 1 / 10 ^ 6 \<and>
           \<bar>vlen normal2 - 1\<bar> \<le> 1 / 10 ^ 6 \<and>
           \<bar>dot normal1 tangent\<bar> \<le> 1 / 10 ^ 6 \<and>
           \<bar>dot normal1 normal2\<bar> \<le> 1 / 10 ^ 6)"
proof -
  have v: "valid_config example_config"
    by (simp add: valid_config_def example_config_def)
  have r: "(0::int) \<le> 0" "0 \<le> path_segments example_config"
    by (simp_all add: example_config_def)
  show ?thesis
    using v r frame_within_tolerance[OF v r] by simp
qed


subsection \<open>Tangent and position\<close>

lemma calculate_tangent_cases:
  "calculate_tangent c t =
     (case curve_derivative c t of (dx_dt, dy_dt, dz_dt) \<Rightarrow>
        if vlen (dx_dt, dy_dt, dz_dt) > 0
        then Inr (dx_dt / vlen (dx_dt, dy_dt, dz_dt),
                  dy_dt / vlen (dx_dt, dy_dt, dz_dt),
                  dz_dt / vlen (dx_dt, dy_dt, dz_dt))
        else Inr (1, 0, 0))"
  by (simp add: calculate_tangent_def curve_derivative_def Let_def vlen_def truediv_def)

lemma position_x_derivative:
  "((\<lambda>t. fst (calculate_position c t)) has_real_derivative fst (curve_derivative c t)) (at t)"
  unfolding calculate_position_def curve_derivative_def Let_def fst_conv
  by (auto intro!: derivative_eq_intros simp: algebra_simps)

lemma position_y_derivative:
  "((\<lambda>t. fst (snd (calculate_position c t))) has_real_derivative
      fst (snd (curve_derivative c t))) (at t)"
  unfolding calculate_position_def curve_derivative_def Let_def fst_conv snd_conv
  by (auto intro!: derivative_eq_intros simp: algebra_simps)

lemma position_z_derivative:
  "((\<lambda>t. snd (snd (calculate_position c t))) has_real_derivative
      snd (snd (curve_derivative c t))) (at t)"
  unfolding calculate_position_def curve_derivative_def Let_def fst_conv snd_conv
  by (auto intro!: derivative_eq_intros simp: algebra_simps)

text \<open>
  C7. The three values that the tangent computation normalises are the derivatives of
  the three coordinates of the position. Where their magnitude is zero the tangent
  computation returns \<open>(1, 0, 0)\<close> and raises nothing; where it is positive it returns
  the derivative divided by its magnitude, a vector of length 1.
\<close>

theorem tangent_fallback:
  "((\<lambda>t. fst (calculate_position c t)) has_real_derivative fst (curve_derivative c t)) (at t) \<and>
   ((\<lambda>t. fst (snd (calculate_position c t))) has_real_derivative
      fst (snd (curve_derivative c t))) (at t) \<and>
   ((\<lambda>t. snd (snd (calculate_position c t))) has_real_derivative
      snd (snd (curve_derivative c t))) (at t) \<and>
   (vlen (curve_derivative c t) = 0 \<longrightarrow> calculate_tangent c t = Inr (1, 0, 0)) \<and>
   (vlen (curve_derivative c t) > 0 \<longrightarrow>
      calculate_tangent c t =
        Inr (fst (curve_derivative c t) / vlen (curve_derivative c t),
             fst (snd (curve_derivative c t)) / vlen (curve_derivative c t),
             snd (snd (curve_derivative c t)) / vlen (curve_derivative c t)) \<and>
      (\<exists>w. calculate_tangent c t = Inr w \<and> vlen w = 1))"
proof -
  have zero: "calculate_tangent c t = Inr (1, 0, 0)" if "vlen (curve_derivative c t) = 0"
    using that by (cases "curve_derivative c t") (simp add: calculate_tangent_cases)
  have pos: "calculate_tangent c t =
        Inr (fst (curve_derivative c t) / vlen (curve_derivative c t),
             fst (snd (curve_derivative c t)) / vlen (curve_derivative c t),
             snd (snd (curve_derivative c t)) / vlen (curve_derivative c t))"
    if "vlen (curve_derivative c t) > 0"
    using that by (cases "curve_derivative c t") (simp add: calculate_tangent_cases)
  show ?thesis
    using zero pos calculate_tangent_unit[of c t]
      position_x_derivative position_y_derivative position_z_derivative
    by blast
qed

theorem tangent_fallback_witness:
  "vlen (curve_derivative still_config 1) = 0 \<and>
   calculate_tangent still_config 1 = Inr (1, 0, 0) \<and>
   vlen (curve_derivative example_config 0) > 0 \<and>
   calculate_tangent example_config 0 =
     Inr (0, (24 / 5) / sqrt (612 / 25), (6 / 5) / sqrt (612 / 25))"
proof -
  have z: "vlen (curve_derivative still_config 1) = 0"
    by (simp add: curve_derivative_def still_config_def example_config_def vlen_def)
  have d: "curve_derivative example_config 0 = (0, 24 / 5, 6 / 5)"
    by (simp add: curve_derivative_def example_config_def)
  have l: "vlen (0, 24 / 5, 6 / 5) = sqrt (612 / 25)"
    by (simp add: vlen_def power2_eq_square)
  have pz: "vlen (curve_derivative example_config 0) > 0"
    by (simp add: d l)
  show ?thesis
    using z pz tangent_fallback[of still_config 1] tangent_fallback[of example_config 0]
    by (simp add: d l)
qed


text \<open>
  C8. For every valid configuration and every parameter \<open>t\<close> the position is
  \<open>x = cos (p t) (R + r' cos (q t))\<close>, \<open>y = sin (p t) (R + r' cos (q t))\<close>,
  \<open>z = r' sin (q t)\<close> with \<open>R = torus_radius\<close> and \<open>r' = 2 tube_radius\<close>; for
  \<open>torus_radius = 1\<close> and \<open>tube_radius = 0.3\<close> the first sample is \<open>(1.6, 0, 0)\<close>.
\<close>

theorem position_formula:
  assumes "valid_config c"
  shows "calculate_position c t =
           (cos (of_int (p c) * t) * (torus_radius c + 2 * tube_radius c * cos (of_int (q c) * t)),
            sin (of_int (p c) * t) * (torus_radius c + 2 * tube_radius c * cos (of_int (q c) * t)),
            2 * tube_radius c * sin (of_int (q c) * t)) \<and>
         (torus_radius c = 1 \<and> tube_radius c = 3 / 10 \<longrightarrow>
            calculate_position c (sample_param c 0) = (8 / 5, 0, 0))"
  by (simp add: calculate_position_def Let_def sample_param_def)

theorem position_formula_witness:
  "valid_config example_config \<and>
   torus_radius example_config = 1 \<and> tube_radius example_config = 3 / 10 \<and>
   calculate_position example_config (sample_param example_config 0) = (8 / 5, 0, 0) \<and>
   calculate_position example_config pi = (- 8 / 5, 0, 0)"
proof -
  have v: "valid_config example_config"
    by (simp add: valid_config_def example_config_def)
  have r: "torus_radius example_config = 1" "tube_radius example_config = 3 / 10"
    by (simp_all add: example_config_def)
  have "calculate_position example_config pi = (- 8 / 5, 0, 0)"
    using position_formula[OF v, of pi] by (simp add: example_config_def)
  then show ?thesis
    using v r position_formula[OF v, of 0] by simp
qed


text \<open>
  C10. The helper \<open>normalize\<close> returns on every input and never raises; on a vector of
  length zero it returns \<open>(0, 0, 1)\<close>, which is not the fallback \<open>(1, 0, 0)\<close> of the
  tangent. So the frame construction returns on every tangent, also where
  \<open>tangent \<times> up\<close> is the zero vector, and \<open>normal1\<close> is then \<open>(0, 0, 1)\<close>.
\<close>

theorem normalize_total:
  "(\<exists>w. normalize v = Inr w) \<and>
   (vlen v = 0 \<longrightarrow> normalize v = Inr (0, 0, 1)) \<and>
   normalize (0, 0, 0) = Inr (0, 0, 1) \<and>
   normalize (0, 0, 0) \<noteq> Inr (1, 0, 0) \<and>
   (\<exists>normal1 normal2. make_frame tangent = Inr (normal1, normal2)) \<and>
   (cross_product tangent (choose_up tangent) = (0, 0, 0) \<longrightarrow>
      (\<exists>normal2. make_frame tangent = Inr ((0, 0, 1), normal2)))"
proof -
  have a: "\<exists>w. normalize v = Inr w" using normalize_unit by blast
  have b: "normalize v = Inr (0, 0, 1)" if "vlen v = 0"
    using that by (cases v) (simp add: vlen_def)
  have z: "normalize (0, 0, 0) = Inr (0, 0, 1)" by simp
  have f: "\<exists>normal2. make_frame tangent = Inr ((0, 0, 1), normal2)"
    if "cross_product tangent (choose_up tangent) = (0, 0, 0)"
  proof -
    obtain n2 where "normalize (cross_product tangent (0, 0, 1)) = Inr n2"
      using normalize_unit by blast
    then have "make_frame tangent = Inr ((0, 0, 1), n2)"
      using that by (simp add: make_frame_def Let_def)
    then show ?thesis by blast
  qed
  show ?thesis using a b z f make_frame_total[of tangent] by simp
qed

theorem normalize_total_witness:
  "vlen (0, 0, 0) = 0 \<and> normalize (0, 0, 0) = Inr (0, 0, 1) \<and>
   cross_product (0, 0, 0) (choose_up (0, 0, 0)) = (0, 0, 0) \<and>
   make_frame (0, 0, 0) = Inr ((0, 0, 1), (0, 0, 1))"
proof -
  have h: "vlen (0, 0, 0) = 0" "cross_product (0, 0, 0) (choose_up (0, 0, 0)) = (0, 0, 0)"
    by (simp_all add: vlen_def)
  have m: "make_frame (0, 0, 0) = Inr ((0, 0, 1), (0, 0, 1))"
    by (simp add: make_frame_def)
  show ?thesis
    using h m normalize_total[of "(0, 0, 0)" "(0, 0, 0)"] by simp
qed

subsection \<open>Which configurations fail\<close>

lemma format_6f_examples:
  "format_6f (8 / 5) = ''1.600000''"
  "format_6f (- 1 / 128) = ''-0.007812''"
  "format_6f (- 1 / 10 ^ 9) = ''-0.000000''"
  by (simp_all add: format_6f_def round_half_even_def Let_def)

lemma generate_vertices_no_path:
  assumes "path_segments c < 0"
  shows "generate_vertices c = Inr ([], [])"
  using assms by (simp add: generate_vertices_def)

lemma generate_vertices_zero_path:
  assumes "path_segments c = 0"
  shows "generate_vertices c = Inl ZeroDivisionError"
  using assms by (simp add: generate_vertices_def upto_zero_zero truediv_def)

lemma generate_vertices_zero_tube:
  assumes "1 \<le> path_segments c" "tube_segments c = 0"
  shows "generate_vertices c = Inl ZeroDivisionError"
proof -
  have up: "[0 .. path_segments c] = 0 # [1 .. path_segments c]"
    using assms(1) by (simp add: upto_rec1)
  obtain tg where tg: "calculate_tangent c 0 = Inr tg"
    using calculate_tangent_unit by blast
  obtain n1 n2 where fr: "make_frame tg = Inr (n1, n2)"
    using make_frame_total by blast
  have tl: "tube_loop c pos n1 n2 [0 .. tube_segments c] acc = Inl ZeroDivisionError"
    for pos acc
    using assms(2) by (cases acc) (simp add: upto_zero_zero truediv_def)
  show ?thesis
    using assms(1) by (simp add: generate_vertices_def up truediv_def tg fr tl)
qed

lemma generate_vertices_returns:
  assumes "path_segments c \<noteq> 0" "1 \<le> path_segments c \<longrightarrow> tube_segments c \<noteq> 0"
  shows "\<exists>vertices normals. generate_vertices c = Inr (vertices, normals)"
proof (cases "path_segments c < 0")
  case True
  then show ?thesis by (simp add: generate_vertices_no_path)
next
  case False
  then have "tube_segments c \<noteq> 0" using assms by simp
  then show ?thesis using generate_vertices_closed[OF assms(1)] by simp
qed

lemma computation_failure_before_output:
  assumes "generate_vertices c = Inl e"
  shows "generate_torus_knot_obj fmt c w = (Inl e, w)"
  using assms by (simp add: generate_torus_knot_obj_def)

lemma run_without_fault:
  assumes "generate_vertices c = Inr (vertices, normals)" "\<not> unwritable w (output_file c)"
  shows "fst (generate_torus_knot_obj fmt c w) = Inr ()"
    and "files (snd (generate_torus_knot_obj fmt c w)) (output_file c) =
           Some (obj_text fmt c vertices normals (generate_faces c))"
  using assms by (simp_all add: generate_torus_knot_obj_def unwritable_def Let_def)

lemma write_fault_leaves_prefix:
  assumes "generate_vertices c = Inr (vertices, normals)"
    "fault w (output_file c) = Some (WriteFails n)"
  shows "generate_torus_knot_obj fmt c w =
           (Inl OSError,
            w\<lparr>files := (files w)(output_file c \<mapsto>
                 take n (obj_text fmt c vertices normals (generate_faces c)))\<rparr>)"
  using assms by (simp add: generate_torus_knot_obj_def Let_def)

text \<open>
  C1, as the code has it. The function checks nothing about its configuration and has
  no error for an invalid one, so a configuration with \<open>p < 1\<close>, \<open>q < 1\<close> or a segment
  count below 3 is not rejected as such. Among these, \<open>path_segments = 0\<close> makes the
  vertex loop raise the division by zero of its first statement, and
  \<open>path_segments \<ge> 1\<close> with \<open>tube_segments = 0\<close> makes the vertex loop raise as well.
  Whenever the vertex loop raises, the function ends with that error before the
  destination is opened: the world is unchanged, nothing was written or printed, and no
  partial output exists after such a failure.
\<close>

theorem no_validation:
  "(path_segments c = 0 \<longrightarrow> generate_vertices c = Inl ZeroDivisionError) \<and>
   (1 \<le> path_segments c \<and> tube_segments c = 0 \<longrightarrow> (\<exists>e. generate_vertices c = Inl e)) \<and>
   (\<forall>e. generate_vertices c = Inl e \<longrightarrow>
      generate_torus_knot_obj fmt c w = (Inl e, w))"
proof -
  have tube: "\<exists>e. generate_vertices c = Inl e"
    if h: "1 \<le> path_segments c \<and> tube_segments c = 0"
    using h generate_vertices_zero_tube[of c] by blast
  show ?thesis
    using generate_vertices_zero_path[of c] tube computation_failure_before_output[of c]
    by blast
qed

theorem no_validation_witness:
  "path_segments (example_config\<lparr>path_segments := 0\<rparr>) = 0 \<and>
   generate_vertices (example_config\<lparr>path_segments := 0\<rparr>) = Inl ZeroDivisionError \<and>
   generate_torus_knot_obj format_6f (example_config\<lparr>path_segments := 0\<rparr>) idle_world =
     (Inl ZeroDivisionError, idle_world) \<and>
   1 \<le> path_segments (example_config\<lparr>tube_segments := 0\<rparr>) \<and>
   tube_segments (example_config\<lparr>tube_segments := 0\<rparr>) = 0 \<and>
   (\<exists>e. generate_vertices (example_config\<lparr>tube_segments := 0\<rparr>) = Inl e \<and>
        generate_torus_knot_obj format_6f (example_config\<lparr>tube_segments := 0\<rparr>) idle_world =
          (Inl e, idle_world))"
proof -
  have h1: "path_segments (example_config\<lparr>path_segments := 0\<rparr>) = 0"
    by simp
  have h2: "1 \<le> path_segments (example_config\<lparr>tube_segments := 0\<rparr>) \<and>
            tube_segments (example_config\<lparr>tube_segments := 0\<rparr>) = 0"
    by (simp add: example_config_def)
  note a = no_validation[of "example_config\<lparr>path_segments := 0\<rparr>" format_6f idle_world,
      THEN conjunct1, rule_format, OF h1]
  note a' = no_validation[of "example_config\<lparr>path_segments := 0\<rparr>" format_6f idle_world,
      THEN conjunct2, THEN conjunct2, rule_format, OF a]
  obtain e where b: "generate_vertices (example_config\<lparr>tube_segments := 0\<rparr>) = Inl e"
    using no_validation[of "example_config\<lparr>tube_segments := 0\<rparr>" format_6f idle_world,
      THEN conjunct2, THEN conjunct1, rule_format, OF h2] by blast
  note b' = no_validation[of "example_config\<lparr>tube_segments := 0\<rparr>" format_6f idle_world,
      THEN conjunct2, THEN conjunct2, rule_format, OF b]
  show ?thesis using h1 h2 a a' b b' by blast
qed

text \<open>
  C1, as the spec states it, fails: the configuration \<open>p = 0\<close>, \<open>q = 0\<close>,
  \<open>path_segments = 1\<close>, \<open>tube_segments = 1\<close> breaks all four conditions, and the
  function returns normally and writes the output file.
\<close>

theorem invalid_config_accepted:
  "p degenerate_config < 1 \<and> q degenerate_config < 1 \<and>
   path_segments degenerate_config < 3 \<and> tube_segments degenerate_config < 3 \<and>
   fst (generate_torus_knot_obj format_6f degenerate_config idle_world) = Inr () \<and>
   files (snd (generate_torus_knot_obj format_6f degenerate_config idle_world))
     (output_file degenerate_config) \<noteq> None"
proof -
  have "path_segments degenerate_config \<noteq> 0 \<and>
        (1 \<le> path_segments degenerate_config \<longrightarrow> tube_segments degenerate_config \<noteq> 0) \<and>
        \<not> unwritable idle_world (output_file degenerate_config)"
    by (simp add: degenerate_config_def idle_world_def unwritable_def)
  then obtain vertices normals where
    "generate_vertices degenerate_config = Inr (vertices, normals)"
    using generate_vertices_returns[of degenerate_config] by blast
  then have "fst (generate_torus_knot_obj format_6f degenerate_config idle_world) = Inr () \<and>
        files (snd (generate_torus_knot_obj format_6f degenerate_config idle_world))
          (output_file degenerate_config) \<noteq> None"
    by (simp add: generate_torus_knot_obj_def Let_def idle_world_def)
  then show ?thesis by (simp add: degenerate_config_def)
qed


subsection \<open>Determinism\<close>

lemma config_cases:
  fixes c1 c2 :: config
  assumes "p c1 = p c2" "q c1 = q c2" "path_segments c1 = path_segments c2"
    "tube_segments c1 = tube_segments c2" "torus_radius c1 = torus_radius c2"
    "tube_radius c1 = tube_radius c2"
  shows "c2 = c1\<lparr>output_file := output_file c2\<rparr>"
  using assms by (intro config.equality) simp_all

lemma tube_point_path: "tube_point (c\<lparr>output_file := f\<rparr>) = tube_point c"
proof (intro ext)
  fix pos n1 n2 :: vec3 and v :: real
  show "tube_point (c\<lparr>output_file := f\<rparr>) pos n1 n2 v = tube_point c pos n1 n2 v"
    by (cases pos; cases n1; cases n2) simp
qed

lemma tube_loop_path:
  "tube_loop (c\<lparr>output_file := f\<rparr>) pos n1 n2 js acc = tube_loop c pos n1 n2 js acc"
proof (induction js arbitrary: acc)
  case Nil
  then show ?case by (cases acc) simp
next
  case (Cons j js)
  show ?case by (cases acc) (simp add: tube_point_path Cons.IH Let_def split: prod.splits)
qed

lemma calculate_position_path:
  "calculate_position (c\<lparr>output_file := f\<rparr>) = calculate_position c"
  by (intro ext) (simp add: calculate_position_def)

lemma calculate_tangent_path:
  "calculate_tangent (c\<lparr>output_file := f\<rparr>) = calculate_tangent c"
  by (intro ext) (simp add: calculate_tangent_def)

lemma path_loop_path:
  "path_loop (c\<lparr>output_file := f\<rparr>) is acc = path_loop c is acc"
proof (induction "is" arbitrary: acc)
  case Nil
  then show ?case by simp
next
  case (Cons i "is")
  have ih: "path_loop (c\<lparr>output_file := f\<rparr>) is = path_loop c is"
    by (intro ext) (rule Cons.IH)
  show ?case
    by (simp add: calculate_position_path calculate_tangent_path tube_loop_path ih)
qed

lemma generate_vertices_path:
  "generate_vertices (c\<lparr>output_file := f\<rparr>) = generate_vertices c"
  by (simp add: generate_vertices_def path_loop_path)

lemma generate_faces_path:
  "generate_faces (c\<lparr>output_file := f\<rparr>) = generate_faces c"
  by (simp add: generate_faces_def quad_def)

lemma obj_text_path:
  "obj_text fmt (c\<lparr>output_file := f\<rparr>) = obj_text fmt c"
  by (intro ext) (simp add: obj_text_def)

lemma run_written:
  assumes "\<not> unwritable w (output_file c)"
  shows "fst (generate_torus_knot_obj fmt c w) =
           (case generate_vertices c of Inl e \<Rightarrow> Inl e | Inr m \<Rightarrow> Inr ()) \<and>
         (fst (generate_torus_knot_obj fmt c w) = Inr () \<longrightarrow>
            files (snd (generate_torus_knot_obj fmt c w)) (output_file c) =
              (case generate_vertices c of
                 Inl e \<Rightarrow> None
               | Inr (vertices, normals) \<Rightarrow>
                   Some (obj_text fmt c vertices normals (generate_faces c))))"
proof (cases "generate_vertices c")
  case (Inl e)
  then show ?thesis by (simp add: generate_torus_knot_obj_def)
next
  case (Inr m)
  obtain vertices normals where m: "m = (vertices, normals)" by (cases m)
  show ?thesis
    using run_without_fault[OF Inr[unfolded m] assms, of fmt] Inr m by simp
qed

text \<open>
  C9. Two runs whose configurations agree on \<open>p\<close>, \<open>q\<close>, \<open>path_segments\<close>,
  \<open>tube_segments\<close>, \<open>torus_radius\<close> and \<open>tube_radius\<close>, in any two worlds where the
  destinations have no fault, compute the same vertices, normals and faces, end the same
  way, and on success leave the same text in their output files: the result depends on
  nothing but these six values.
\<close>

theorem deterministic:
  assumes "p c1 = p c2" "q c1 = q c2" "path_segments c1 = path_segments c2"
    "tube_segments c1 = tube_segments c2" "torus_radius c1 = torus_radius c2"
    "tube_radius c1 = tube_radius c2"
    and "\<not> unwritable w1 (output_file c1)" "\<not> unwritable w2 (output_file c2)"
  shows "generate_vertices c1 = generate_vertices c2 \<and>
         generate_faces c1 = generate_faces c2 \<and>
         fst (generate_torus_knot_obj fmt c1 w1) = fst (generate_torus_knot_obj fmt c2 w2) \<and>
         (fst (generate_torus_knot_obj fmt c1 w1) = Inr () \<longrightarrow>
            files (snd (generate_torus_knot_obj fmt c1 w1)) (output_file c1) =
            files (snd (generate_torus_knot_obj fmt c2 w2)) (output_file c2) \<and>
            files (snd (generate_torus_knot_obj fmt c1 w1)) (output_file c1) \<noteq> None)"
proof -
  have c2: "c2 = c1\<lparr>output_file := output_file c2\<rparr>"
    using assms(1-6) by (rule config_cases)
  have gv: "generate_vertices c2 = generate_vertices c1"
    by (subst c2) (rule generate_vertices_path)
  have gf: "generate_faces c2 = generate_faces c1"
    by (subst c2) (rule generate_faces_path)
  have ot: "obj_text fmt c2 = obj_text fmt c1"
    by (subst c2) (rule obj_text_path)
  note r1 = run_written[OF assms(7), of fmt]
  note r2 = run_written[OF assms(8), of fmt]
  show ?thesis
  proof (cases "generate_vertices c1")
    case (Inl e)
    then show ?thesis using r1 r2 by (simp add: gv gf)
  next
    case (Inr m)
    obtain vertices normals where m: "m = (vertices, normals)" by (cases m)
    show ?thesis using r1 r2 Inr m by (simp add: gv gf ot)
  qed
qed

theorem deterministic_witness:
  "\<not> unwritable idle_world (output_file example_config) \<and>
   \<not> unwritable (idle_world\<lparr>stdout := [''earlier run'']\<rparr>) ''examples/models/torus-knot.obj'' \<and>
   generate_vertices example_config =
     generate_vertices (example_config\<lparr>output_file := ''examples/models/torus-knot.obj''\<rparr>) \<and>
   fst (generate_torus_knot_obj format_6f example_config idle_world) = Inr () \<and>
   files (snd (generate_torus_knot_obj format_6f example_config idle_world)) ''torus-knot.obj'' =
   files (snd (generate_torus_knot_obj format_6f
            (example_config\<lparr>output_file := ''examples/models/torus-knot.obj''\<rparr>)
            (idle_world\<lparr>stdout := [''earlier run'']\<rparr>))) ''examples/models/torus-knot.obj''"
proof -
  have v: "valid_config example_config"
    by (simp add: valid_config_def example_config_def)
  obtain vertices normals where gv: "generate_vertices example_config = Inr (vertices, normals)"
    using valid_mesh_sizes[OF v] by blast
  have ok: "fst (generate_torus_knot_obj format_6f example_config idle_world) = Inr ()"
    by (simp add: generate_torus_knot_obj_def gv Let_def idle_world_def)
  show ?thesis
    using ok deterministic[of example_config
        "example_config\<lparr>output_file := ''examples/models/torus-knot.obj''\<rparr>"
        idle_world "idle_world\<lparr>stdout := [''earlier run'']\<rparr>" format_6f]
    by (simp add: idle_world_def example_config_def unwritable_def)
qed

end
